theory Spec2Isabelle
  imports Main "HOL-Library.AList"
begin

section \<open>Data model of server.js\<close>

text \<open>
  The service of \<^verbatim>\<open>src/server.js\<close> keeps three pieces of state outside the
  request handlers: the module variable \<^verbatim>\<open>useRedis\<close>, the string keys of the
  store (written by \<^verbatim>\<open>setex\<close>, read by \<^verbatim>\<open>get\<close>) and the sorted set
  \<^verbatim>\<open>"user_post_counts"\<close>. The upstream API is read only.

  JSON values are what \<^verbatim>\<open>res.json\<close> puts on the wire: \<^verbatim>\<open>JSON.stringify\<close>
  drops a property whose value is \<^verbatim>\<open>undefined\<close> and prints \<^verbatim>\<open>NaN\<close> as
  \<^verbatim>\<open>null\<close>. Strings are byte strings; the identifiers of the examples are ASCII.

  A string key of the store holds a text together with the time at which the entry
  expires. The text is \<^verbatim>\<open>JSON.stringify\<close> of a JSON value (what this program writes,
  never empty), the empty text, or some other text that \<^verbatim>\<open>JSON.parse\<close> rejects.
  The upstream answers
  \<^verbatim>\<open>/users\<close> with a mapping from user ids to names and
  \<^verbatim>\<open>/users/{id}/posts\<close> with a list of posts; \<open>None\<close> is a failed request.
\<close>

datatype json =
    JNull
  | JNum int
  | JStr string
  | JArr "json list"
  | JObj "(string \<times> json) list"

datatype cached = JsonText json | EmptyText | BadText

text \<open>\<^verbatim>\<open>JSON.parse\<close> throws a SyntaxError (\<open>None\<close>) on a text that is not JSON.\<close>

fun JSON_parse :: "cached \<Rightarrow> json option" where
  "JSON_parse (JsonText v) = Some v"
| "JSON_parse EmptyText = None"
| "JSON_parse BadText = None"

text \<open>A string is truthy unless it is empty.\<close>

fun truthy :: "cached \<Rightarrow> bool" where
  "truthy (JsonText v) = True"
| "truthy EmptyText = False"
| "truthy BadText = True"

type_synonym post = string

record upstream =
  api_users :: "(string \<times> string) list option"
  api_posts :: "string \<Rightarrow> post list option"

datatype outcome = Reply | Reject string

type_synonym tick = "bool \<times> outcome"

record world =
  useRedis :: bool
  kv :: "string \<rightharpoonup> (cached \<times> int)"
  zset :: "(string \<times> nat) list"
  ticks :: "tick list"
  api_log :: "string list"

record response =
  status :: nat
  body :: json

section \<open>The store client\<close>

text \<open>
  Every command sent to the store consumes one entry of the fault schedule
  \<open>ticks\<close>: whether the client emits an \<^verbatim>\<open>"error"\<close> event while the
  command is pending (lines 31-34 then clear \<^verbatim>\<open>useRedis\<close>) and whether the
  command's promise resolves or rejects. An exhausted schedule means a healthy store.
\<close>

definition settle :: "world \<Rightarrow> outcome \<times> world" where
  "settle w =
     (case ticks w of
        [] \<Rightarrow> (Reply, w)
      | (ev, out) # ts \<Rightarrow>
          (out, w\<lparr>useRedis := (if ev then False else useRedis w), ticks := ts\<rparr>))"

text \<open>\<^verbatim>\<open>redis.get(key)\<close> at time \<open>now\<close>: an entry is visible until it expires.\<close>

definition redis_get :: "int \<Rightarrow> string \<Rightarrow> world \<Rightarrow> (string + cached option) \<times> world" where
  "redis_get now k w =
     (case settle w of
        (Reject m, w') \<Rightarrow> (Inl m, w')
      | (Reply, w') \<Rightarrow>
          (Inr (case kv w' k of
                  None \<Rightarrow> None
                | Some (v, expiry) \<Rightarrow> if now < expiry then Some v else None), w'))"

text \<open>\<^verbatim>\<open>redis.setex(key, ttl, value)\<close>: the store refuses a ttl that is not positive.\<close>

definition redis_setex :: "int \<Rightarrow> string \<Rightarrow> int \<Rightarrow> cached \<Rightarrow> world \<Rightarrow> (string + unit) \<times> world" where
  "redis_setex now k ttl v w =
     (case settle w of
        (Reject m, w') \<Rightarrow> (Inl m, w')
      | (Reply, w') \<Rightarrow>
          if ttl \<le> 0 then (Inl ''ERR invalid expire time in setex'', w')
          else (Inr (), w'\<lparr>kv := (kv w')(k \<mapsto> (v, now + ttl))\<rparr>))"

subsection \<open>The sorted set\<close>

text \<open>
  Members are compared bytewise, the shorter of two strings with a common prefix first.
\<close>

fun str_less :: "string \<Rightarrow> string \<Rightarrow> bool" where
  "str_less [] [] = False"
| "str_less [] (y # ys) = True"
| "str_less (x # xs) [] = False"
| "str_less (x # xs) (y # ys) =
     ((of_char x :: nat) < of_char y \<or> (x = y \<and> str_less xs ys))"

text \<open>\<open>ranks_above a b\<close>: entry \<open>a\<close> comes before entry \<open>b\<close> in reverse rank order.\<close>

definition ranks_above :: "string \<times> nat \<Rightarrow> string \<times> nat \<Rightarrow> bool" where
  "ranks_above a b = (snd b < snd a \<or> (snd a = snd b \<and> str_less (fst b) (fst a)))"

fun rank_insert :: "string \<times> nat \<Rightarrow> (string \<times> nat) list \<Rightarrow> (string \<times> nat) list" where
  "rank_insert a [] = [a]"
| "rank_insert a (b # bs) = (if ranks_above a b then a # b # bs else b # rank_insert a bs)"

definition rev_ranked :: "(string \<times> nat) list \<Rightarrow> (string \<times> nat) list" where
  "rev_ranked z = foldr rank_insert z []"

text \<open>A score is sent back as the decimal text of the number.\<close>

definition digit_char :: "nat \<Rightarrow> char" where
  "digit_char d = ''0123456789'' ! d"

fun show_nat :: "nat \<Rightarrow> string" where
  "show_nat n = (if n < 10 then [digit_char n] else show_nat (n div 10) @ [digit_char (n mod 10)])"

declare show_nat.simps [simp del]

text \<open>
  \<^verbatim>\<open>redis.zrevrange("user_post_counts", start, stop, "WITHSCORES")\<close> with
  non-negative indices: the members from rank \<open>start\<close> to rank \<open>stop\<close>, highest
  score first. The ioredis client does not transform this reply: the promise resolves to
  the store's flat array of strings \<^verbatim>\<open>[member1, score1, member2, score2, ...]\<close>.
\<close>

definition with_scores :: "(string \<times> nat) list \<Rightarrow> string list" where
  "with_scores es = concat (map (\<lambda>(m, s). [m, show_nat s]) es)"

definition redis_zrevrange :: "nat \<Rightarrow> nat \<Rightarrow> world \<Rightarrow> (string + string list) \<times> world" where
  "redis_zrevrange start stop w =
     (case settle w of
        (Reject m, w') \<Rightarrow> (Inl m, w')
      | (Reply, w') \<Rightarrow>
          (Inr (with_scores (take (Suc stop - start) (drop start (rev_ranked (zset w'))))), w'))"

text \<open>
  \<^verbatim>\<open>zadd("user_post_counts", score, member)\<close>: a member that is already in the set
  gets the new score.
\<close>

definition zadd :: "nat \<times> string \<Rightarrow> (string \<times> nat) list \<Rightarrow> (string \<times> nat) list" where
  "zadd c z = AList.update (snd c) (fst c) z"

text \<open>
  A pipeline queues commands and \<^verbatim>\<open>exec\<close> sends them. Each queued command settles
  on its own, and the promise of \<^verbatim>\<open>exec\<close> resolves to one \<^verbatim>\<open>[err, result]\<close>
  per command, in order: here the error of the command, or \<open>None\<close> when it was applied.
  For an empty pipeline nothing is sent and the promise resolves to the empty array.
\<close>

fun pipeline_exec :: "(nat \<times> string) list \<Rightarrow> world \<Rightarrow> string option list \<times> world" where
  "pipeline_exec [] w = ([], w)"
| "pipeline_exec (c # cs) w =
     (case settle w of
        (Reject m, w') \<Rightarrow>
          (case pipeline_exec cs w' of (results, w'') \<Rightarrow> (Some m # results, w''))
      | (Reply, w') \<Rightarrow>
          (case pipeline_exec cs (w'\<lparr>zset := zadd c (zset w')\<rparr>) of
             (results, w'') \<Rightarrow> (None # results, w'')))"

text \<open>\<open>accepts n w\<close>: the store replies to each of the next \<open>n\<close> commands.\<close>

fun accepts :: "nat \<Rightarrow> world \<Rightarrow> bool" where
  "accepts 0 w = True"
| "accepts (Suc n) w =
     (case settle w of
        (Reject m, w') \<Rightarrow> False
      | (Reply, w') \<Rightarrow> accepts n w')"

section \<open>The upstream client\<close>

text \<open>
  \<^verbatim>\<open>fetchAllUsers\<close> (lines 79-87) and \<^verbatim>\<open>fetchUserPosts\<close> (lines 89-97)
  catch every failure of the request and return the empty mapping or the empty list.
  The mapping is kept as the list of its properties, so \<^verbatim>\<open>Object.keys\<close> is
  \<open>map fst\<close> and \<^verbatim>\<open>users[id]\<close> is \<open>map_of\<close>. Every request made is
  appended to \<open>api_log\<close>.
\<close>

definition fetchAllUsers :: "upstream \<Rightarrow> world \<Rightarrow> (string \<times> string) list \<times> world" where
  "fetchAllUsers api w =
     ((case api_users api of None \<Rightarrow> [] | Some us \<Rightarrow> us),
      w\<lparr>api_log := api_log w @ [''/users'']\<rparr>)"

definition fetchUserPosts :: "upstream \<Rightarrow> string \<Rightarrow> world \<Rightarrow> post list \<times> world" where
  "fetchUserPosts api userId w =
     ((case api_posts api userId of None \<Rightarrow> [] | Some ps \<Rightarrow> ps),
      w\<lparr>api_log := api_log w @ [''/users/'' @ userId @ ''/posts'']\<rparr>)"

section \<open>The leaderboard refresh\<close>

text \<open>The loop of lines 105-108: one fetch and one queued \<^verbatim>\<open>zadd\<close> per user id.\<close>

fun queue_zadds ::
  "upstream \<Rightarrow> string list \<Rightarrow> (nat \<times> string) list \<Rightarrow> world \<Rightarrow> (nat \<times> string) list \<times> world" where
  "queue_zadds api [] pipeline w = (pipeline, w)"
| "queue_zadds api (userId # userIds) pipeline w =
     (case fetchUserPosts api userId w of
        (posts, w') \<Rightarrow> queue_zadds api userIds (pipeline @ [(length posts, userId)]) w')"

text \<open>
  The body of the \<^verbatim>\<open>try\<close> block of \<^verbatim>\<open>updateUserPostCounts\<close> (lines 101-110).
  The array that \<^verbatim>\<open>exec\<close> resolves to is not looked at.
\<close>

definition updateUserPostCounts_try :: "upstream \<Rightarrow> world \<Rightarrow> (string + unit) \<times> world" where
  "updateUserPostCounts_try api w =
     (case fetchAllUsers api w of
        (users, w1) \<Rightarrow>
          if useRedis w1 then
            (case queue_zadds api (map fst users) [] w1 of
               (pipeline, w2) \<Rightarrow>
                 (case pipeline_exec pipeline w2 of (results, w3) \<Rightarrow> (Inr (), w3)))
          else (Inr (), w1))"

text \<open>The \<^verbatim>\<open>catch\<close> of lines 111-113 logs the error and returns normally.\<close>

definition updateUserPostCounts :: "upstream \<Rightarrow> world \<Rightarrow> (string + unit) \<times> world" where
  "updateUserPostCounts api w =
     (case updateUserPostCounts_try api w of
        (Inl m, w') \<Rightarrow> (Inr (), w')
      | (Inr u, w') \<Rightarrow> (Inr u, w'))"

section \<open>The response cache\<close>

text \<open>
  Line 60: \<^verbatim>\<open>`${key}_${process.env.ACCESS_TOKEN?.slice(-6) || 'default'}`\<close>. A token
  that is not set is \<open>None\<close>.
\<close>

definition fingerprint :: "string option \<Rightarrow> string" where
  "fingerprint token =
     (case token of
        None \<Rightarrow> ''default''
      | Some t \<Rightarrow> (let s = drop (length t - 6) t in if s = [] then ''default'' else s))"

definition cacheKey :: "string \<Rightarrow> string option \<Rightarrow> string" where
  "cacheKey key token = key @ ''_'' @ fingerprint token"

type_synonym res_json = "nat \<Rightarrow> json \<Rightarrow> world \<Rightarrow> response \<times> world"

definition originalJson :: res_json where
  "originalJson code data w = (\<lparr>status = code, body = data\<rparr>, w)"

text \<open>
  The replacement of \<^verbatim>\<open>res.json\<close> installed on lines 68-71. The write is not
  awaited and its rejection is only logged. The cached text is
  \<^verbatim>\<open>JSON.stringify(data)\<close>.
\<close>

definition cachingJson :: "string \<Rightarrow> int \<Rightarrow> int \<Rightarrow> res_json" where
  "cachingJson ck ttl now code data w =
     originalJson code data
       (if useRedis w then snd (redis_setex now ck ttl (JsonText data) w) else w)"

text \<open>
  The middleware of lines 59-77. \<open>next\<close> is the rest of the route; it is given the
  \<^verbatim>\<open>res.json\<close> in force when \<^verbatim>\<open>next()\<close> is called. Line 64 answers from the
  cache only when the text read is truthy; a rejected \<^verbatim>\<open>get\<close> and a text that
  \<^verbatim>\<open>JSON.parse\<close> rejects both end in the \<^verbatim>\<open>catch\<close> of lines 73-76, which calls
  \<^verbatim>\<open>next()\<close> before \<^verbatim>\<open>res.json\<close> has been replaced.
\<close>

definition cache ::
  "string \<Rightarrow> string option \<Rightarrow> int \<Rightarrow> int \<Rightarrow> (res_json \<Rightarrow> world \<Rightarrow> response \<times> world) \<Rightarrow>
   world \<Rightarrow> response \<times> world" where
  "cache key token ttl now next w =
     (let ck = cacheKey key token in
      if useRedis w then
        (case redis_get now ck w of
           (Inl m, w') \<Rightarrow> next originalJson w'
         | (Inr None, w') \<Rightarrow> next (cachingJson ck ttl now) w'
         | (Inr (Some cachedData), w') \<Rightarrow>
             if truthy cachedData then
               (case JSON_parse cachedData of
                  None \<Rightarrow> next originalJson w'
                | Some data \<Rightarrow> originalJson 200 data w')
             else next (cachingJson ck ttl now) w')
      else next (cachingJson ck ttl now) w)"

section \<open>The top-users handler\<close>

text \<open>
  Line 124 maps \<^verbatim>\<open>([userId, postCount]) => ...\<close> over the reply. The elements of
  the reply are strings, and destructuring a string takes its first two characters
  (\<^verbatim>\<open>undefined\<close> where the string is shorter).
\<close>

definition destructure :: "string \<Rightarrow> string option \<times> string option" where
  "destructure s =
     (case s of
        [] \<Rightarrow> (None, None)
      | [c] \<Rightarrow> (Some [c], None)
      | c # d # _ \<Rightarrow> (Some [c], Some [d]))"

text \<open>
  \<^verbatim>\<open>parseInt\<close> on the values that reach it here, \<^verbatim>\<open>undefined\<close> or a string of
  one character: a decimal digit gives its value, anything else \<^verbatim>\<open>NaN\<close>
  (\<open>None\<close>).
\<close>

definition parseInt :: "string option \<Rightarrow> int option" where
  "parseInt x =
     (case x of
        Some [c] \<Rightarrow>
          (if 48 \<le> (of_char c :: nat) \<and> (of_char c :: nat) \<le> 57
           then Some (int (of_char c) - 48) else None)
      | _ \<Rightarrow> None)"

text \<open>\<^verbatim>\<open>users[userId] || "Unknown"\<close>; the property key of \<^verbatim>\<open>undefined\<close> is its name.\<close>

definition name_of :: "(string \<times> string) list \<Rightarrow> string option \<Rightarrow> string" where
  "name_of users userId =
     (case map_of users (case userId of None \<Rightarrow> ''undefined'' | Some u \<Rightarrow> u) of
        None \<Rightarrow> ''Unknown''
      | Some n \<Rightarrow> if n = [] then ''Unknown'' else n)"

definition entry_of :: "(string \<times> string) list \<Rightarrow> string \<Rightarrow> json" where
  "entry_of users s =
     (case destructure s of
        (userId, postCount) \<Rightarrow>
          JObj ((case userId of None \<Rightarrow> [] | Some u \<Rightarrow> [(''user_id'', JStr u)]) @
                [(''name'', JStr (name_of users userId)),
                 (''post_count'', (case parseInt postCount of None \<Rightarrow> JNull | Some n \<Rightarrow> JNum n))]))"

text \<open>The \<^verbatim>\<open>try\<close> block of the handler, lines 120-124.\<close>

definition top_users_try :: "upstream \<Rightarrow> res_json \<Rightarrow> world \<Rightarrow> (string + response) \<times> world" where
  "top_users_try api res_json w =
     (case (if useRedis w then redis_zrevrange 0 4 w else (Inr [], w)) of
        (Inl m, w1) \<Rightarrow> (Inl m, w1)
      | (Inr topUsers0, w1) \<Rightarrow>
     (case (if topUsers0 = [] then updateUserPostCounts api w1 else (Inr (), w1)) of
        (Inl m, w2) \<Rightarrow> (Inl m, w2)
      | (Inr _, w2) \<Rightarrow>
     (case (if useRedis w2 then redis_zrevrange 0 4 w2 else (Inr topUsers0, w2)) of
        (Inl m, w3) \<Rightarrow> (Inl m, w3)
      | (Inr topUsers, w3) \<Rightarrow>
     (case fetchAllUsers api w3 of
        (users, w4) \<Rightarrow>
     (case res_json 200 (JArr (map (entry_of users) topUsers)) w4 of
        (r, w5) \<Rightarrow> (Inr r, w5))))))"

text \<open>The \<^verbatim>\<open>catch\<close> of lines 125-128 answers 500 through the same \<^verbatim>\<open>res.json\<close>.\<close>

definition top_users :: "upstream \<Rightarrow> res_json \<Rightarrow> world \<Rightarrow> response \<times> world" where
  "top_users api res_json w =
     (case top_users_try api res_json w of
        (Inl m, w') \<Rightarrow>
          res_json 500 (JObj [(''error'', JStr ''Internal server error''), (''details'', JStr m)]) w'
      | (Inr r, w') \<Rightarrow> (r, w'))"

text \<open>
  The route of line 118: \<^verbatim>\<open>rateLimit\<close> only calls \<^verbatim>\<open>next()\<close>, then
  \<^verbatim>\<open>cache("top_users")\<close>, then the handler.
\<close>

definition get_users :: "upstream \<Rightarrow> string option \<Rightarrow> int \<Rightarrow> int \<Rightarrow> world \<Rightarrow> response \<times> world" where
  "get_users api token ttl now w = cache ''top_users'' token ttl now (top_users api) w"

section \<open>Health, start-up and the events of a run\<close>

text \<open>
  Lines 131-139. The time, the memory figures and the uptime come from the runtime and
  are parameters.
\<close>

definition get_health :: "string \<Rightarrow> json \<Rightarrow> json \<Rightarrow> world \<Rightarrow> response \<times> world" where
  "get_health server_time memory_usage uptime w =
     originalJson 200
       (JObj [(''status'', JStr ''healthy''),
              (''server_time'', JStr server_time),
              (''redis_status'', JStr (if useRedis w then ''connected'' else ''disabled'')),
              (''memory_usage'', memory_usage),
              (''uptime'', uptime)]) w"

text \<open>
  Line 18 declares the flag \<^verbatim>\<open>true\<close>. The store starts without cached responses
  and with an empty sorted set in the examples below.
\<close>

definition initial_world :: world where
  "initial_world =
     \<lparr>useRedis = True, kv = Map.empty, zset = [], ticks = [], api_log = []\<rparr>"

text \<open>
  Lines 20-38: the \<^verbatim>\<open>catch\<close> around the construction of the client clears the
  flag when the constructor throws.
\<close>

definition startup :: "bool \<Rightarrow> world" where
  "startup constructor_throws =
     (if constructor_throws then initial_world\<lparr>useRedis := False\<rparr> else initial_world)"

text \<open>The handler of the client's \<^verbatim>\<open>"error"\<close> event, lines 31-34.\<close>

definition on_redis_error :: "world \<Rightarrow> world" where
  "on_redis_error w = w\<lparr>useRedis := False\<rparr>"

text \<open>
  What can happen to a running process: a request to either route, an error event of
  the store client, and the environment deciding how the next store commands settle.
\<close>

datatype event =
    GetUsers int
  | GetHealth string json json
  | RedisError
  | Schedule "tick list"

record config =
  upstream_api :: upstream
  access_token :: "string option"
  cache_ttl :: int

definition step :: "config \<Rightarrow> event \<Rightarrow> world \<Rightarrow> world" where
  "step c e w =
     (case e of
        GetUsers now \<Rightarrow> snd (get_users (upstream_api c) (access_token c) (cache_ttl c) now w)
      | GetHealth t m u \<Rightarrow> snd (get_health t m u w)
      | RedisError \<Rightarrow> on_redis_error w
      | Schedule ts \<Rightarrow> w\<lparr>ticks := ticks w @ ts\<rparr>)"

definition run :: "config \<Rightarrow> event list \<Rightarrow> world \<Rightarrow> world" where
  "run c es w = fold (step c) es w"

section \<open>The leaderboard the specification describes, and example inputs\<close>

text \<open>
  The specification's leaderboard (its sections 4.3 and 4.4), for comparison with what
  the handler answers: every user of the upstream mapping counted by the length of the
  post list, the five highest counts first, each entry with the user's id, name and
  count.
\<close>

definition spec_leaderboard :: "upstream \<Rightarrow> json" where
  "spec_leaderboard api =
     (let users = (case api_users api of None \<Rightarrow> [] | Some us \<Rightarrow> us);
          counts = map (\<lambda>(u, n). (u, length (case api_posts api u of None \<Rightarrow> [] | Some ps \<Rightarrow> ps))) users
      in JArr (map (\<lambda>(u, c). JObj [(''user_id'', JStr u),
                                   (''name'', JStr (case map_of users u of None \<Rightarrow> ''Unknown'' | Some n \<Rightarrow> n)),
                                   (''post_count'', JNum (int c))])
                   (take 5 (rev_ranked counts))))"

text \<open>Reading a property of a JSON object.\<close>

definition field :: "string \<Rightarrow> json \<Rightarrow> json option" where
  "field k j = (case j of JObj fs \<Rightarrow> map_of fs k | _ \<Rightarrow> None)"

text \<open>
  The upstream of the specification's scenario: users \<^verbatim>\<open>{"1":"Alice","2":"Bob"}\<close>
  with three posts and one post.
\<close>

definition alice_bob :: upstream where
  "alice_bob =
     \<lparr>api_users = Some [(''1'', ''Alice''), (''2'', ''Bob'')],
      api_posts = (\<lambda>u. if u = ''1'' then Some [''p1'', ''p2'', ''p3'']
                        else if u = ''2'' then Some [''p4''] else None)\<rparr>"

text \<open>Three users with two posts, one post and no post.\<close>

definition three_users :: upstream where
  "three_users =
     \<lparr>api_users = Some [(''1'', ''Alice''), (''2'', ''Bob''), (''3'', ''Carol'')],
      api_posts = (\<lambda>u. if u = ''1'' then Some [''p1'', ''p2'']
                        else if u = ''2'' then Some [''p3'']
                        else if u = ''3'' then Some [] else None)\<rparr>"

text \<open>An upstream whose \<^verbatim>\<open>/users\<close> request fails.\<close>

definition users_down :: upstream where
  "users_down = \<lparr>api_users = None, api_posts = (\<lambda>u. Some [''p1''])\<rparr>"

text \<open>An upstream whose posts request fails for user \<^verbatim>\<open>"2"\<close> only.\<close>

definition posts_down :: upstream where
  "posts_down =
     \<lparr>api_users = Some [(''1'', ''Alice''), (''2'', ''Bob'')],
      api_posts = (\<lambda>u. if u = ''1'' then Some [''p1'', ''p2'', ''p3''] else None)\<rparr>"

definition example_config :: config where
  "example_config =
     \<lparr>upstream_api = alice_bob, access_token = Some ''secret-token'', cache_ttl = 60\<rparr>"

section \<open>Properties of the store client and the refresh\<close>

lemma settle_healthy: "ticks w = [] \<Longrightarrow> settle w = (Reply, w)"
  by (simp add: settle_def)

lemma settle_frame:
  "kv (snd (settle w)) = kv w"
  "zset (snd (settle w)) = zset w"
  "api_log (snd (settle w)) = api_log w"
  by (auto simp: settle_def split: list.splits prod.splits)

lemma settle_api_log: "settle (w\<lparr>api_log := l\<rparr>) = (fst (settle w), (snd (settle w))\<lparr>api_log := l\<rparr>)"
  by (simp add: settle_def split: list.splits prod.splits)

lemma settle_zset: "settle (w\<lparr>zset := z\<rparr>) = (fst (settle w), (snd (settle w))\<lparr>zset := z\<rparr>)"
  by (simp add: settle_def split: list.splits prod.splits)

lemma accepts_api_log: "accepts n (w\<lparr>api_log := l\<rparr>) = accepts n w"
  by (induction n arbitrary: w) (simp_all add: settle_api_log split: prod.splits outcome.splits)

lemma accepts_zset: "accepts n (w\<lparr>zset := z\<rparr>) = accepts n w"
  by (induction n arbitrary: w) (simp_all add: settle_zset split: prod.splits outcome.splits)

lemma pipeline_exec_snd:
  "snd (pipeline_exec (c # cs) w) =
     (case settle w of
        (Reject m, w') \<Rightarrow> snd (pipeline_exec cs w')
      | (Reply, w') \<Rightarrow> snd (pipeline_exec cs (w'\<lparr>zset := zadd c (zset w')\<rparr>)))"
  by (simp split: prod.splits outcome.splits)

lemma pipeline_exec_kv: "kv (snd (pipeline_exec cmds w)) = kv w"
proof (induction cmds arbitrary: w)
  case Nil
  then show ?case by simp
next
  case (Cons c cs)
  obtain out w' where s: "settle w = (out, w')"
    by (cases "settle w")
  have k: "kv w' = kv w"
    using settle_frame(1) [of w] s by simp
  show ?case
    using s k Cons.IH by (cases out) (simp_all add: pipeline_exec_snd del: pipeline_exec.simps)
qed

lemma pipeline_exec_accepted:
  "accepts (length cmds) w \<Longrightarrow> zset (snd (pipeline_exec cmds w)) = fold zadd cmds (zset w)"
proof (induction cmds arbitrary: w)
  case Nil
  then show ?case by simp
next
  case (Cons c cs)
  obtain w' where s: "settle w = (Reply, w')" and rest: "accepts (length cs) w'"
    using Cons.prems by (auto split: prod.splits outcome.splits)
  have z: "zset w' = zset w"
    using settle_frame(2) [of w] s by simp
  have "zset (snd (pipeline_exec cs (w'\<lparr>zset := zadd c (zset w')\<rparr>)))
          = fold zadd cs (zadd c (zset w'))"
    using Cons.IH [of "w'\<lparr>zset := zadd c (zset w')\<rparr>"] rest by (simp add: accepts_zset)
  then show ?case
    using s z by (simp add: pipeline_exec_snd del: pipeline_exec.simps)
qed

lemma pipeline_exec_healthy:
  "ticks w = [] \<Longrightarrow> snd (pipeline_exec cmds w) = w\<lparr>zset := fold zadd cmds (zset w)\<rparr>"
proof (induction cmds arbitrary: w)
  case Nil
  then show ?case by simp
next
  case (Cons c cs)
  have "snd (pipeline_exec cs (w\<lparr>zset := zadd c (zset w)\<rparr>))
          = w\<lparr>zset := zadd c (zset w)\<rparr>\<lparr>zset := fold zadd cs (zadd c (zset w))\<rparr>"
    using Cons.IH [of "w\<lparr>zset := zadd c (zset w)\<rparr>"] Cons.prems by simp
  then show ?case
    using Cons.prems by (simp add: pipeline_exec_snd settle_healthy del: pipeline_exec.simps)
qed

lemma queue_zadds_pipeline:
  "fst (queue_zadds api us p w) = p @ map (\<lambda>u. (length (fst (fetchUserPosts api u w0)), u)) us"
  by (induction us arbitrary: p w) (simp_all add: fetchUserPosts_def split: prod.splits)

lemma queue_zadds_world:
  "snd (queue_zadds api us p w) =
     w\<lparr>api_log := api_log w @ map (\<lambda>u. ''/users/'' @ u @ ''/posts'') us\<rparr>"
  by (induction us arbitrary: p w) (simp_all add: fetchUserPosts_def split: prod.splits)

lemma fold_zadd_lookup:
  "map_of (fold zadd (map (\<lambda>u. (f u, u)) us) z) m =
     (if m \<in> set us then Some (f m) else map_of z m)"
  by (induction us arbitrary: z) (auto simp: zadd_def update_conv')

section \<open>The disabled store\<close>

lemma updateUserPostCounts_disabled:
  "\<not> useRedis w \<Longrightarrow>
   updateUserPostCounts api w = (Inr (), w\<lparr>api_log := api_log w @ [''/users'']\<rparr>)"
  by (simp add: updateUserPostCounts_def updateUserPostCounts_try_def fetchAllUsers_def)

lemma top_users_disabled:
  "\<not> useRedis w \<Longrightarrow>
   top_users api (cachingJson ck ttl now) w =
     (\<lparr>status = 200, body = JArr []\<rparr>, w\<lparr>api_log := api_log w @ [''/users'', ''/users'']\<rparr>)"
  by (simp add: top_users_def top_users_try_def updateUserPostCounts_disabled fetchAllUsers_def
      cachingJson_def originalJson_def)

lemma get_users_disabled:
  "\<not> useRedis w \<Longrightarrow>
   get_users api token ttl now w =
     (\<lparr>status = 200, body = JArr []\<rparr>, w\<lparr>api_log := api_log w @ [''/users'', ''/users'']\<rparr>)"
  by (simp add: get_users_def cache_def top_users_disabled)

lemma step_disabled: "\<not> useRedis w \<Longrightarrow> \<not> useRedis (step c e w)"
  by (cases e)
     (simp_all add: step_def get_users_disabled get_health_def originalJson_def on_redis_error_def)

lemma run_disabled: "\<not> useRedis w \<Longrightarrow> \<not> useRedis (run c es w)"
  unfolding run_def by (induction es arbitrary: w) (simp_all add: step_disabled)

text \<open>
  Claim C10. While the store-disabled flag is set, \<^verbatim>\<open>GET /users\<close> answers the empty
  array; the refresh it runs requests only \<^verbatim>\<open>/users\<close> from the upstream, so it
  fetches no posts, and it leaves the sorted set as it was.
\<close>

theorem disabled_users_empty:
  assumes "\<not> useRedis w"
  shows "fst (get_users api token ttl now w) = \<lparr>status = 200, body = JArr []\<rparr>
       \<and> api_log (snd (updateUserPostCounts api w)) = api_log w @ [''/users'']
       \<and> zset (snd (updateUserPostCounts api w)) = zset w
       \<and> api_log (snd (get_users api token ttl now w)) = api_log w @ [''/users'', ''/users'']
       \<and> zset (snd (get_users api token ttl now w)) = zset w"
  using assms by (simp add: get_users_disabled updateUserPostCounts_disabled)

theorem disabled_users_empty_witness:
  "\<not> useRedis (on_redis_error (startup False))
   \<and> fst (get_users alice_bob (Some ''secret-token'') 60 0 (on_redis_error (startup False)))
       = \<lparr>status = 200, body = JArr []\<rparr>
   \<and> api_log (snd (updateUserPostCounts alice_bob (on_redis_error (startup False)))) = [''/users'']
   \<and> zset (snd (updateUserPostCounts alice_bob (on_redis_error (startup False)))) = []"
proof -
  have off: "\<not> useRedis (on_redis_error (startup False))"
    by (simp add: on_redis_error_def)
  show ?thesis
    using off disabled_users_empty [OF off, of alice_bob "Some ''secret-token''" 60 0]
    by (simp add: on_redis_error_def startup_def initial_world_def)
qed

text \<open>
  Claim C2, as it holds. While the store is disabled, \<^verbatim>\<open>GET /users\<close> answers the
  empty array, without reading or writing a cache entry, and \<^verbatim>\<open>GET /health\<close>
  reports \<^verbatim>\<open>redis_status: "disabled"\<close>.
\<close>

theorem disabled_degrades_to_empty:
  assumes "\<not> useRedis w"
  shows "body (fst (get_users api token ttl now w)) = JArr []
       \<and> kv (snd (get_users api token ttl now w)) = kv w
       \<and> field ''redis_status'' (body (fst (get_health server_time memory_usage uptime w)))
           = Some (JStr ''disabled'')"
  using assms by (simp add: get_users_disabled get_health_def originalJson_def field_def)

theorem disabled_degrades_to_empty_witness:
  "\<not> useRedis (startup True)
   \<and> body (fst (get_users alice_bob (Some ''secret-token'') 60 0 (startup True))) = JArr []
   \<and> field ''redis_status''
        (body (fst (get_health ''2026-01-01T00:00:00.000Z'' JNull JNull (startup True))))
       = Some (JStr ''disabled'')"
proof -
  have off: "\<not> useRedis (startup True)"
    by (simp add: startup_def initial_world_def)
  show ?thesis
    using off disabled_degrades_to_empty [OF off, of alice_bob "Some ''secret-token''" 60 0
        "''2026-01-01T00:00:00.000Z''" JNull JNull]
    by simp
qed

text \<open>
  Claim C9. The flag starts enabled (and stays so through start-up unless constructing
  the client throws), the handler of the store's error event clears it, and no run of
  events (requests to either route, error events, store commands that fail) sets it
  again once it is cleared.
\<close>

theorem flag_one_way:
  "useRedis initial_world
   \<and> useRedis (startup False)
   \<and> \<not> useRedis (on_redis_error w)
   \<and> (\<not> useRedis w \<longrightarrow> \<not> useRedis (run c es w))"
  by (simp add: initial_world_def startup_def on_redis_error_def run_disabled)

theorem flag_one_way_witness:
  "useRedis initial_world
   \<and> \<not> useRedis (on_redis_error (startup False))
   \<and> \<not> useRedis
         (run example_config
            [GetUsers 0, Schedule [(False, Reply)], GetHealth ''t'' JNull JNull, GetUsers 100]
            (on_redis_error (startup False)))"
  using flag_one_way [of "on_redis_error (startup False)" example_config
      "[GetUsers 0, Schedule [(False, Reply)], GetHealth ''t'' JNull JNull, GetUsers 100]"]
  by (simp add: initial_world_def startup_def on_redis_error_def)

section \<open>The refresh\<close>

lemma updateUserPostCounts_try_enabled:
  assumes "useRedis w"
  shows "updateUserPostCounts_try api w =
           (Inr (),
            snd (pipeline_exec
                   (map (\<lambda>u. (length (fst (fetchUserPosts api u w)), u))
                      (map fst (fst (fetchAllUsers api w))))
                   (w\<lparr>api_log := api_log w @ [''/users''] @
                         map (\<lambda>u. ''/users/'' @ u @ ''/posts'')
                           (map fst (fst (fetchAllUsers api w)))\<rparr>)))"
proof -
  let ?us = "map fst (fst (fetchAllUsers api w))"
  let ?w1 = "w\<lparr>api_log := api_log w @ [''/users'']\<rparr>"
  have q: "queue_zadds api ?us [] ?w1 =
             (map (\<lambda>u. (length (fst (fetchUserPosts api u w)), u)) ?us,
              ?w1\<lparr>api_log := api_log ?w1 @ map (\<lambda>u. ''/users/'' @ u @ ''/posts'') ?us\<rparr>)"
    using queue_zadds_pipeline [of api ?us "[]" ?w1 w] queue_zadds_world [of api ?us "[]" ?w1]
    by (simp add: prod_eq_iff)
  show ?thesis
    using assms q by (simp add: updateUserPostCounts_try_def fetchAllUsers_def split: prod.splits)
qed

text \<open>
  Claim C6. When the request for the user mapping fails, the refresh returns normally
  and leaves the sorted set (and the cached responses) as they were.
\<close>

theorem refresh_noop_when_users_fail:
  assumes "api_users api = None"
  shows "fst (updateUserPostCounts api w) = Inr ()
       \<and> zset (snd (updateUserPostCounts api w)) = zset w
       \<and> kv (snd (updateUserPostCounts api w)) = kv w"
  using assms
  by (simp add: updateUserPostCounts_def updateUserPostCounts_try_def fetchAllUsers_def)

theorem refresh_noop_when_users_fail_witness:
  "api_users users_down = None
   \<and> fst (updateUserPostCounts users_down ((startup False)\<lparr>zset := [(''1'', 3)]\<rparr>)) = Inr ()
   \<and> zset (snd (updateUserPostCounts users_down ((startup False)\<lparr>zset := [(''1'', 3)]\<rparr>)))
       = [(''1'', 3)]"
proof -
  have down: "api_users users_down = None"
    by (simp add: users_down_def)
  show ?thesis
    using down refresh_noop_when_users_fail [OF down, of "(startup False)\<lparr>zset := [(''1'', 3)]\<rparr>"]
    by simp
qed

text \<open>
  Claim C7, as it holds. While the store is enabled and the store accepts the batch
  (it replies to each of the queued commands, one per user id), the refresh leaves every
  user id of the fetched mapping in the sorted set with the length of the fetched post
  list as its score, and that score is 0 when the request for the user's posts fails.
\<close>

theorem refresh_scores:
  assumes "useRedis w"
    and "accepts (length (fst (fetchAllUsers api w))) w"
    and "u \<in> fst ` set (fst (fetchAllUsers api w))"
  shows "map_of (zset (snd (updateUserPostCounts api w))) u
           = Some (length (fst (fetchUserPosts api u w)))
       \<and> (api_posts api u = None \<longrightarrow>
            map_of (zset (snd (updateUserPostCounts api w))) u = Some 0)"
proof -
  let ?us = "map fst (fst (fetchAllUsers api w))"
  let ?f = "\<lambda>u. length (fst (fetchUserPosts api u w))"
  have mem: "u \<in> set ?us"
    using assms(3) by simp
  have "zset (snd (updateUserPostCounts api w)) = fold zadd (map (\<lambda>u. (?f u, u)) ?us) (zset w)"
    using assms(1,2)
    by (simp add: updateUserPostCounts_def updateUserPostCounts_try_enabled
        pipeline_exec_accepted accepts_api_log)
  then have "map_of (zset (snd (updateUserPostCounts api w))) u = Some (?f u)"
    using mem fold_zadd_lookup [of ?f ?us "zset w" u] by simp
  then show ?thesis
    by (simp add: fetchUserPosts_def)
qed

theorem refresh_scores_witness:
  "useRedis (startup False)
   \<and> accepts (length (fst (fetchAllUsers posts_down (startup False)))) (startup False)
   \<and> ''2'' \<in> fst ` set (fst (fetchAllUsers posts_down (startup False)))
   \<and> api_posts posts_down ''2'' = None
   \<and> map_of (zset (snd (updateUserPostCounts posts_down (startup False)))) ''2'' = Some 0
   \<and> map_of (zset (snd (updateUserPostCounts posts_down (startup False)))) ''1'' = Some 3"
proof -
  have on: "useRedis (startup False)"
    by (simp add: startup_def initial_world_def)
  have ok: "accepts (length (fst (fetchAllUsers posts_down (startup False)))) (startup False)"
    by (simp add: fetchAllUsers_def posts_down_def startup_def initial_world_def settle_def
        numeral_2_eq_2)
  have m1: "''1'' \<in> fst ` set (fst (fetchAllUsers posts_down (startup False)))"
    and m2: "''2'' \<in> fst ` set (fst (fetchAllUsers posts_down (startup False)))"
    by (simp_all add: fetchAllUsers_def posts_down_def)
  have none: "api_posts posts_down ''2'' = None"
    by (simp add: posts_down_def)
  show ?thesis
    using on ok m2 none refresh_scores [OF on ok m1] refresh_scores [OF on ok m2]
    by (simp add: fetchUserPosts_def posts_down_def)
qed

section \<open>The cache key\<close>

lemma fingerprint_last_six: "t \<noteq> [] \<Longrightarrow> fingerprint (Some t) = drop (length t - 6) t"
proof -
  assume "t \<noteq> []"
  then have "length t - 6 < length t"
    by (cases t) simp_all
  then show ?thesis
    by (simp add: fingerprint_def Let_def)
qed

text \<open>
  Claim C8, as it holds. Two bearer tokens (non-empty, as start-up requires) give the
  same cache key for a logical key exactly when they agree on their last six characters;
  tokens that differ there use distinct cache entries.
\<close>

theorem cacheKey_distinct:
  assumes "a \<noteq> []" and "b \<noteq> []"
  shows "(cacheKey key (Some a) = cacheKey key (Some b))
       = (drop (length a - 6) a = drop (length b - 6) b)"
  using assms by (simp add: cacheKey_def fingerprint_last_six)

theorem cacheKey_distinct_witness:
  "''token-AAAAAA'' \<noteq> [] \<and> ''token-BBBBBB'' \<noteq> []
   \<and> cacheKey ''top_users'' (Some ''token-AAAAAA'') \<noteq> cacheKey ''top_users'' (Some ''token-BBBBBB'')"
  using cacheKey_distinct [of "''token-AAAAAA''" "''token-BBBBBB''" "''top_users''"]
  by simp

section \<open>The response cache\<close>

text \<open>
  Claim C4, as it holds. When the store is enabled and \<^verbatim>\<open>get(cacheKey)\<close> returns
  a stored text that is the text of a JSON value, the middleware answers with that
  value, and the answer and the state after it are the same whatever the rest of the
  route is: the handler is not run.
\<close>

theorem cache_hit_skips_handler:
  assumes "useRedis w"
    and "redis_get now (cacheKey key token) w = (Inr (Some (JsonText v)), w')"
  shows "cache key token ttl now next w = (\<lparr>status = 200, body = v\<rparr>, w')
       \<and> cache key token ttl now next w = cache key token ttl now next' w"
  using assms by (simp add: cache_def originalJson_def)

theorem cache_hit_skips_handler_witness:
  "useRedis ((startup False)\<lparr>kv := [''top_users_-token'' \<mapsto> (JsonText (JArr []), 60)]\<rparr>)
   \<and> redis_get 10 (cacheKey ''top_users'' (Some ''secret-token''))
        ((startup False)\<lparr>kv := [''top_users_-token'' \<mapsto> (JsonText (JArr []), 60)]\<rparr>)
       = (Inr (Some (JsonText (JArr []))),
          (startup False)\<lparr>kv := [''top_users_-token'' \<mapsto> (JsonText (JArr []), 60)]\<rparr>)
   \<and> cache ''top_users'' (Some ''secret-token'') 60 10 (top_users alice_bob)
        ((startup False)\<lparr>kv := [''top_users_-token'' \<mapsto> (JsonText (JArr []), 60)]\<rparr>)
       = (\<lparr>status = 200, body = JArr []\<rparr>,
          (startup False)\<lparr>kv := [''top_users_-token'' \<mapsto> (JsonText (JArr []), 60)]\<rparr>)"
proof -
  let ?w = "(startup False)\<lparr>kv := [''top_users_-token'' \<mapsto> (JsonText (JArr []), 60)]\<rparr>"
  have on: "useRedis ?w"
    by (simp add: startup_def initial_world_def)
  have hit: "redis_get 10 (cacheKey ''top_users'' (Some ''secret-token'')) ?w
               = (Inr (Some (JsonText (JArr []))), ?w)"
    by (simp add: redis_get_def settle_def startup_def initial_world_def cacheKey_def fingerprint_def)
  show ?thesis
    using on hit cache_hit_skips_handler [OF on hit, of 60 "top_users alice_bob" "top_users alice_bob"]
    by simp
qed

section \<open>Two requests within one TTL window\<close>

lemma redis_zrevrange_healthy:
  "ticks w = [] \<Longrightarrow>
   redis_zrevrange a b w = (Inr (with_scores (take (Suc b - a) (drop a (rev_ranked (zset w))))), w)"
  by (simp add: redis_zrevrange_def settle_healthy)

lemma updateUserPostCounts_healthy:
  assumes "useRedis w" and "ticks w = []"
  shows "\<exists>w'. updateUserPostCounts api w = (Inr (), w') \<and> useRedis w' \<and> ticks w' = [] \<and> kv w' = kv w"
  using assms
  by (simp add: updateUserPostCounts_def updateUserPostCounts_try_enabled pipeline_exec_healthy)

lemma cachingJson_healthy:
  assumes "useRedis w" and "ticks w = []" and "0 < ttl"
  shows "cachingJson ck ttl now code data w =
           (\<lparr>status = code, body = data\<rparr>,
            w\<lparr>kv := (kv w)(ck \<mapsto> (JsonText data, now + ttl))\<rparr>)"
  using assms by (simp add: cachingJson_def redis_setex_def settle_healthy originalJson_def)

lemma top_users_healthy:
  assumes "useRedis w" and "ticks w = []" and "0 < ttl"
  shows "\<exists>data w'. top_users api (cachingJson ck ttl now) w = (\<lparr>status = 200, body = data\<rparr>, w')
           \<and> kv w' ck = Some (JsonText data, now + ttl) \<and> useRedis w' \<and> ticks w' = []"
proof -
  obtain top0 where z0: "redis_zrevrange 0 4 w = (Inr top0, w)"
    using assms(2) by (simp add: redis_zrevrange_healthy)
  obtain w2 where r: "(if top0 = [] then updateUserPostCounts api w else (Inr (), w)) = (Inr (), w2)"
    and on2: "useRedis w2" and t2: "ticks w2 = []"
    using updateUserPostCounts_healthy [OF assms(1,2), of api] assms(1,2)
    by (cases "top0 = []") auto
  obtain top1 where z1: "redis_zrevrange 0 4 w2 = (Inr top1, w2)"
    using t2 by (simp add: redis_zrevrange_healthy)
  let ?w4 = "w2\<lparr>api_log := api_log w2 @ [''/users'']\<rparr>"
  have "useRedis ?w4" "ticks ?w4 = []"
    using on2 t2 by simp_all
  then show ?thesis
    using assms(1,3) z0 r on2 z1
    by (simp add: top_users_def top_users_try_def fetchAllUsers_def cachingJson_healthy)
qed

text \<open>
  Claim C5, as it holds. While the store stays enabled and its commands succeed, a
  request at time \<open>t1\<close> that misses the cache writes its answer to the cache, and the
  next request with the same token at a time \<open>t2\<close> inside the TTL window of that
  write, against the same upstream, carries the same payload and makes no request to the
  upstream.
\<close>

theorem cache_idempotent:
  assumes "useRedis w" and "ticks w = []"
    and "fst (redis_get t1 (cacheKey ''top_users'' token) w) = Inr None"
    and "t1 \<le> t2" and "t2 < t1 + ttl"
  shows "body (fst (get_users api token ttl t2 (snd (get_users api token ttl t1 w))))
           = body (fst (get_users api token ttl t1 w))
       \<and> api_log (snd (get_users api token ttl t2 (snd (get_users api token ttl t1 w))))
           = api_log (snd (get_users api token ttl t1 w))"
proof -
  let ?ck = "cacheKey ''top_users'' token"
  have ttl: "0 < ttl"
    using assms(4,5) by simp
  have miss: "redis_get t1 ?ck w = (Inr None, w)"
    using assms(2,3) by (simp add: redis_get_def settle_healthy)
  obtain data w1
    where first: "top_users api (cachingJson ?ck ttl t1) w = (\<lparr>status = 200, body = data\<rparr>, w1)"
      and stored: "kv w1 ?ck = Some (JsonText data, t1 + ttl)"
      and on1: "useRedis w1" and calm1: "ticks w1 = []"
    using top_users_healthy [OF assms(1,2) ttl] by blast
  have r1: "get_users api token ttl t1 w = (\<lparr>status = 200, body = data\<rparr>, w1)"
    using assms(1) miss first by (simp add: get_users_def cache_def)
  have hit: "redis_get t2 ?ck w1 = (Inr (Some (JsonText data)), w1)"
    using calm1 stored assms(5) by (simp add: redis_get_def settle_healthy)
  have r2: "get_users api token ttl t2 w1 = (\<lparr>status = 200, body = data\<rparr>, w1)"
    using on1 hit by (simp add: get_users_def cache_def originalJson_def)
  show ?thesis
    by (simp add: r1 r2)
qed

section \<open>Runs on the example inputs\<close>

lemmas run_defs =
  get_users_def cache_def startup_def initial_world_def redis_get_def settle_def cacheKey_def fingerprint_def
  top_users_def top_users_try_def redis_zrevrange_def rev_ranked_def with_scores_def
  updateUserPostCounts_def updateUserPostCounts_try_def fetchAllUsers_def fetchUserPosts_def
  zadd_def cachingJson_def originalJson_def redis_setex_def ranks_above_def
  entry_of_def destructure_def parseInt_def name_of_def show_nat.simps digit_char_def
  on_redis_error_def

theorem cache_idempotent_witness:
  "useRedis (startup False) \<and> ticks (startup False) = []
   \<and> fst (redis_get 0 (cacheKey ''top_users'' (Some ''secret-token'')) (startup False)) = Inr None
   \<and> (0::int) \<le> 30 \<and> (30::int) < 0 + 60
   \<and> body (fst (get_users alice_bob (Some ''secret-token'') 60 30
               (snd (get_users alice_bob (Some ''secret-token'') 60 0 (startup False)))))
       = body (fst (get_users alice_bob (Some ''secret-token'') 60 0 (startup False)))
   \<and> api_log (snd (get_users alice_bob (Some ''secret-token'') 60 30
               (snd (get_users alice_bob (Some ''secret-token'') 60 0 (startup False)))))
       = [''/users'', ''/users/1/posts'', ''/users/2/posts'', ''/users'']"
proof -
  have on: "useRedis (startup False)" and calm: "ticks (startup False) = []"
    by (simp_all add: startup_def initial_world_def)
  have miss: "fst (redis_get 0 (cacheKey ''top_users'' (Some ''secret-token'')) (startup False))
                = Inr None"
    by (simp add: redis_get_def settle_def startup_def initial_world_def)
  have le: "(0::int) \<le> 30" and lt: "(30::int) < 0 + 60"
    by simp_all
  have log: "api_log (snd (get_users alice_bob (Some ''secret-token'') 60 0 (startup False)))
      = [''/users'', ''/users/1/posts'', ''/users/2/posts'', ''/users'']"
    by (simp add: run_defs alice_bob_def)
  show ?thesis
    using on calm miss cache_idempotent [OF on calm miss le lt, of alice_bob] log
    by simp
qed

text \<open>
  Against claim C4 as stated: the store is enabled and \<^verbatim>\<open>get(cacheKey)\<close> returns a
  stored value, first a text that \<^verbatim>\<open>JSON.parse\<close> rejects and then the empty text.
  Both times the handler runs: it calls the upstream, and the answer is the handler's.
\<close>

theorem stored_text_runs_handler:
  "useRedis ((startup False)\<lparr>kv := [''top_users_-token'' \<mapsto> (BadText, 60)]\<rparr>)
   \<and> fst (redis_get 10 (cacheKey ''top_users'' (Some ''secret-token''))
          ((startup False)\<lparr>kv := [''top_users_-token'' \<mapsto> (BadText, 60)]\<rparr>))
       = Inr (Some BadText)
   \<and> api_log (snd (cache ''top_users'' (Some ''secret-token'') 60 10 (top_users alice_bob)
          ((startup False)\<lparr>kv := [''top_users_-token'' \<mapsto> (BadText, 60)]\<rparr>)))
       = [''/users'', ''/users/1/posts'', ''/users/2/posts'', ''/users'']
   \<and> fst (redis_get 10 (cacheKey ''top_users'' (Some ''secret-token''))
          ((startup False)\<lparr>kv := [''top_users_-token'' \<mapsto> (EmptyText, 60)]\<rparr>))
       = Inr (Some EmptyText)
   \<and> api_log (snd (cache ''top_users'' (Some ''secret-token'') 60 10 (top_users alice_bob)
          ((startup False)\<lparr>kv := [''top_users_-token'' \<mapsto> (EmptyText, 60)]\<rparr>)))
       = [''/users'', ''/users/1/posts'', ''/users/2/posts'', ''/users'']"
  by (simp add: run_defs alice_bob_def)

text \<open>
  Against claim C5 as stated: the first request writes its answer to the cache with a
  TTL of 60 seconds, the store client then emits an error event, and the next request,
  30 seconds after the first, answers with another payload and calls the upstream.
\<close>

theorem cache_lost_after_error:
  "kv (snd (get_users alice_bob (Some ''secret-token'') 60 0 (startup False)))
      (cacheKey ''top_users'' (Some ''secret-token''))
     = Some (JsonText (body (fst (get_users alice_bob (Some ''secret-token'') 60 0 (startup False)))),
             60)
   \<and> body (fst (get_users alice_bob (Some ''secret-token'') 60 30
               (on_redis_error (snd (get_users alice_bob (Some ''secret-token'') 60 0 (startup False))))))
       = JArr []
   \<and> body (fst (get_users alice_bob (Some ''secret-token'') 60 30
               (on_redis_error (snd (get_users alice_bob (Some ''secret-token'') 60 0 (startup False))))))
       \<noteq> body (fst (get_users alice_bob (Some ''secret-token'') 60 0 (startup False)))
   \<and> api_log (snd (get_users alice_bob (Some ''secret-token'') 60 30
               (on_redis_error (snd (get_users alice_bob (Some ''secret-token'') 60 0 (startup False))))))
       \<noteq> api_log (on_redis_error (snd (get_users alice_bob (Some ''secret-token'') 60 0 (startup False))))"
  by (simp add: run_defs alice_bob_def)

text \<open>
  Against claim C2 as stated: with the store disabled after an error event and the
  upstream of the scenario, the answer of \<^verbatim>\<open>GET /users\<close> is not the leaderboard of
  the upstream's users.
\<close>

theorem disabled_not_leaderboard:
  "\<not> useRedis (on_redis_error (startup False))
   \<and> body (fst (get_users alice_bob (Some ''secret-token'') 60 0 (on_redis_error (startup False))))
       = JArr []
   \<and> spec_leaderboard alice_bob =
       JArr
        [JObj [(''user_id'', JStr ''1''), (''name'', JStr ''Alice''), (''post_count'', JNum 3)],
         JObj [(''user_id'', JStr ''2''), (''name'', JStr ''Bob''), (''post_count'', JNum 1)]]
   \<and> body (fst (get_users alice_bob (Some ''secret-token'') 60 0 (on_redis_error (startup False))))
       \<noteq> spec_leaderboard alice_bob"
  by (simp add: run_defs spec_leaderboard_def alice_bob_def)

text \<open>
  Against claim C7 as stated: with the store disabled, user \<^verbatim>\<open>"1"\<close> is in the
  fetched mapping and the refresh gives it no score.
\<close>

theorem refresh_skipped_when_disabled:
  "''1'' \<in> fst ` set (fst (fetchAllUsers alice_bob (on_redis_error (startup False))))
   \<and> length (fst (fetchUserPosts alice_bob ''1'' (on_redis_error (startup False)))) = 3
   \<and> map_of (zset (snd (updateUserPostCounts alice_bob (on_redis_error (startup False))))) ''1''
       = None
   \<and> map_of (zset (snd (updateUserPostCounts alice_bob (on_redis_error (startup False))))) ''1''
       \<noteq> Some (length (fst (fetchUserPosts alice_bob ''1'' (on_redis_error (startup False)))))"
  by (simp add: run_defs alice_bob_def)

text \<open>
  Against claim C8 as stated: two different tokens with the same last six characters
  have the same cache key.
\<close>

theorem same_suffix_same_key:
  "''alice-123456'' \<noteq> ''bobby-123456''
   \<and> cacheKey ''top_users'' (Some ''alice-123456'') = cacheKey ''top_users'' (Some ''bobby-123456'')"
  by (simp add: cacheKey_def fingerprint_def)

text \<open>
  Claim C3, at its scenario: store enabled, sorted set empty, upstream users
  \<^verbatim>\<open>{"1":"Alice","2":"Bob"}\<close> with three posts and one post. The handler maps over
  the flat reply \<^verbatim>\<open>["1","3","2","1"]\<close>, so the answer has four entries, one per
  string of the reply, each with \<^verbatim>\<open>post_count: null\<close>; it is not the leaderboard
  of the two users.
\<close>

theorem top_users_scenario:
  "fst (get_users alice_bob token ttl now (startup False)) =
     \<lparr>status = 200,
      body = JArr
        [JObj [(''user_id'', JStr ''1''), (''name'', JStr ''Alice''), (''post_count'', JNull)],
         JObj [(''user_id'', JStr ''3''), (''name'', JStr ''Unknown''), (''post_count'', JNull)],
         JObj [(''user_id'', JStr ''2''), (''name'', JStr ''Bob''), (''post_count'', JNull)],
         JObj [(''user_id'', JStr ''1''), (''name'', JStr ''Alice''), (''post_count'', JNull)]]\<rparr>
   \<and> body (fst (get_users alice_bob token ttl now (startup False))) \<noteq>
       JArr
        [JObj [(''user_id'', JStr ''1''), (''name'', JStr ''Alice''), (''post_count'', JNum 3)],
         JObj [(''user_id'', JStr ''2''), (''name'', JStr ''Bob''), (''post_count'', JNum 1)]]"
  by (simp add: run_defs alice_bob_def)

text \<open>
  Claim C1, at an input with three users (two posts, one post, no post): the request
  succeeds with status 200 and its answer has six entries, every one of them with
  \<^verbatim>\<open>post_count: null\<close>.
\<close>

theorem top_users_six_entries:
  "status (fst (get_users three_users token ttl now (startup False))) = 200
   \<and> body (fst (get_users three_users token ttl now (startup False))) =
     JArr
       [JObj [(''user_id'', JStr ''1''), (''name'', JStr ''Alice''), (''post_count'', JNull)],
        JObj [(''user_id'', JStr ''2''), (''name'', JStr ''Bob''), (''post_count'', JNull)],
        JObj [(''user_id'', JStr ''2''), (''name'', JStr ''Bob''), (''post_count'', JNull)],
        JObj [(''user_id'', JStr ''1''), (''name'', JStr ''Alice''), (''post_count'', JNull)],
        JObj [(''user_id'', JStr ''3''), (''name'', JStr ''Carol''), (''post_count'', JNull)],
        JObj [(''user_id'', JStr ''0''), (''name'', JStr ''Unknown''), (''post_count'', JNull)]]"
  by (simp add: run_defs three_users_def)

end
